theory Spec2Isabelle
  imports Main "HOL-Library.Sublist"
begin

section \<open>Python strings\<close>

text \<open>
  A Python \<open>str\<close> is modelled as a \<open>string\<close>, one \<open>char\<close> for each code point. HOL's
  \<open>char\<close> has 256 values, so the model covers the strings whose code points are below 256.
  Library functions that can leave this range (percent decoding, Unicode normalisation)
  are parameters of the functions that call them.
\<close>

definition NL :: char where
  "NL = CHR 0x0A"

definition TAB :: char where
  "TAB = CHR 0x09"

definition DQUOTE :: char where
  "DQUOTE = CHR 0x22"

definition BACKSLASH :: char where
  "BACKSLASH = CHR 0x5C"

text \<open>
  The characters that \<open>str.isspace\<close>, \<open>str.strip()\<close> and the regular expression class
  \<open>\s\<close> (on \<open>str\<close> patterns) treat as whitespace, among the code points below 256.
\<close>

definition py_whitespace :: "char list" where
  "py_whitespace = [CHR 0x09, CHR 0x0A, CHR 0x0B, CHR 0x0C, CHR 0x0D,
                    CHR 0x1C, CHR 0x1D, CHR 0x1E, CHR 0x1F, CHR 0x20, CHR 0x85, CHR 0xA0]"

definition py_isspace :: "char \<Rightarrow> bool" where
  "py_isspace c = (c \<in> set py_whitespace)"

text \<open>\<open>s.strip()\<close>: leading and trailing whitespace removed.\<close>

definition py_strip :: "string \<Rightarrow> string" where
  "py_strip s = rev (dropWhile py_isspace (rev (dropWhile py_isspace s)))"

text \<open>\<open>sep.join(xs)\<close>.\<close>

fun py_join :: "string \<Rightarrow> string list \<Rightarrow> string" where
  "py_join sep [] = []"
| "py_join sep [x] = x"
| "py_join sep (x # y # ys) = x @ sep @ py_join sep (y # ys)"

text \<open>\<open>sub in s\<close> for two strings: \<open>sub\<close> occurs in \<open>s\<close> as a contiguous block.\<close>

fun py_in :: "string \<Rightarrow> string \<Rightarrow> bool" where
  "py_in sub [] = (sub = [])"
| "py_in sub (c # cs) = (prefix sub (c # cs) \<or> py_in sub cs)"

section \<open>Filename Sanitizer\<close>

text \<open>The character class \<open>[<>:"/\\|?*]\<close> of \<open>_sanitize_filename\<close>.\<close>

definition forbidden_chars :: "char list" where
  "forbidden_chars = [CHR ''<'', CHR ''>'', CHR '':'', DQUOTE, CHR ''/'', BACKSLASH,
                      CHR ''|'', CHR ''?'', CHR ''*'']"

text \<open>\<open>re.sub(r'[<>:"/\\|?*]', '_', s)\<close>: each forbidden character becomes an underscore.\<close>

definition sub_forbidden :: "string \<Rightarrow> string" where
  "sub_forbidden s = map (\<lambda>c. if c \<in> set forbidden_chars then CHR ''_'' else c) s"

text \<open>
  \<open>re.sub(r'\s+', '_', s)\<close>: scanning from the left, each maximal run of whitespace
  becomes one underscore.
\<close>

function sub_whitespace_runs :: "string \<Rightarrow> string" where
  "sub_whitespace_runs [] = []"
| "sub_whitespace_runs (c # cs) =
     (if py_isspace c then CHR ''_'' # sub_whitespace_runs (dropWhile py_isspace cs)
      else c # sub_whitespace_runs cs)"
  by pat_completeness auto
termination
  by (relation "measure length") (auto simp: length_dropWhile_le less_Suc_eq_le)

text \<open>
  \<open>MarkdownExporter._sanitize_filename\<close>. The two library calls are parameters:
  \<open>unquote s\<close> is the outcome of \<open>urllib.parse.unquote\<close> on \<open>s\<close>, \<open>None\<close> when it raises
  (the \<open>except\<close> branch then keeps the string as it was), and \<open>nfkc\<close> stands for
  \<open>unicodedata.normalize('NFKC', _)\<close>. \<open>str(filename)\<close> is the identity on a \<open>str\<close>.
\<close>

definition sanitize_filename ::
  "(string \<Rightarrow> string option) \<Rightarrow> (string \<Rightarrow> string) \<Rightarrow> string \<Rightarrow> string" where
  "sanitize_filename unquote nfkc filename =
     (let filename1 = (case unquote filename of None \<Rightarrow> filename | Some decoded \<Rightarrow> decoded);
          filename2 = nfkc filename1;
          filename3 = sub_forbidden filename2;
          filename4 = sub_whitespace_runs filename3
      in take 100 filename4)"

section \<open>Document Writer: value serializer\<close>

text \<open>
  \<open>safe_value\<close>, the local function of \<open>_format_as_markdown\<close>. A value is \<open>None\<close> or a
  \<open>str\<close>. The statement \<open>value_str.replace('"', '\\"')\<close> builds a new string and drops it
  (Python strings are immutable), so \<open>value_str\<close> is unchanged when it is wrapped.
\<close>

definition safe_value :: "string option \<Rightarrow> string" where
  "safe_value value =
     (case value of
        None \<Rightarrow> ''None''
      | Some v \<Rightarrow>
          if v = [] then [DQUOTE, DQUOTE]
          else if CHR '':'' \<in> set v \<or> NL \<in> set v \<or> DQUOTE \<in> set v
               then [DQUOTE] @ v @ [DQUOTE]
               else v)"

section \<open>Node tree\<close>

text \<open>
  An \<open>xml.etree.ElementTree.Element\<close>: a qualified tag (\<open>{uri}local\<close> when the element is
  in a namespace), the attribute mapping, the optional text and the child elements in
  document order. The \<open>tail\<close> of an element is read by none of the functions below.
\<close>

datatype element =
  Element (tag: string) (attrib: "(string \<times> string) list") (etext: "string option")
    (children: "element list")

text \<open>\<open>Element.iter()\<close>: the element, then everything beneath it, in document order.\<close>

fun iter_elements :: "element \<Rightarrow> element list" where
  "iter_elements (Element t a x cs) = Element t a x cs # concat (map iter_elements cs)"

definition descendants :: "element \<Rightarrow> element list" where
  "descendants e = concat (map iter_elements (children e))"

text \<open>
  \<open>Element.find(path)\<close> for the two shapes of path that the program builds.
  For a path that is a plain tag name, \<open>find\<close> returns the first immediate child whose tag
  equals the name. For \<open>.//name\<close>, where \<open>name\<close> is one tag token that is no wildcard,
  \<open>find\<close> returns the first element beneath the node, in document order, whose tag equals
  \<open>name\<close>.
\<close>

definition et_find_child :: "string \<Rightarrow> element \<Rightarrow> element option" where
  "et_find_child name e = find (\<lambda>c. tag c = name) (children e)"

definition et_find_descendant :: "string \<Rightarrow> element \<Rightarrow> element option" where
  "et_find_descendant name e = find (\<lambda>d. tag d = name) (descendants e)"



section \<open>Field Resolver\<close>

text \<open>\<open>XMLParser._cleanup_tag_name\<close>: \<open>tag.split('}')[-1]\<close> is what follows the last \<open>}\<close>.\<close>

definition cleanup_tag_name :: "string \<Rightarrow> string" where
  "cleanup_tag_name t =
     (if CHR ''}'' \<in> set t then rev (takeWhile (\<lambda>c. c \<noteq> CHR ''}'') (rev t)) else t)"

text \<open>\<open>XMLParser._find_element_by_tag_variants\<close>.\<close>

fun find_element_by_tag_variants :: "element \<Rightarrow> string list \<Rightarrow> element option" where
  "find_element_by_tag_variants element [] = None"
| "find_element_by_tag_variants element (variant # rest) =
     (case et_find_child variant element of
        Some exact_match \<Rightarrow> Some exact_match
      | None \<Rightarrow>
          (case et_find_descendant (''{{{*}}}:'' @ variant) element of
             Some wp_match \<Rightarrow> Some wp_match
           | None \<Rightarrow>
               (case et_find_descendant (''{{{*}}}'' @ variant) element of
                  Some ns_match \<Rightarrow> Some ns_match
                | None \<Rightarrow> find_element_by_tag_variants element rest)))"

text \<open>
  The value \<open>e.text.strip()\<close> when the element was found and its text is neither \<open>None\<close>
  nor empty, the empty string otherwise.
\<close>

definition stripped_text :: "element option \<Rightarrow> string" where
  "stripped_text found =
     (case found of
        None \<Rightarrow> []
      | Some e \<Rightarrow> (case etext e of None \<Rightarrow> [] | Some t \<Rightarrow> if t \<noteq> [] then py_strip t else []))"

text \<open>\<open>XMLParser._find_text_by_tag_variants\<close>.\<close>

definition find_text_by_tag_variants :: "element \<Rightarrow> string list \<Rightarrow> string" where
  "find_text_by_tag_variants element tag_variants =
     stripped_text (find_element_by_tag_variants element tag_variants)"

section \<open>Record Extractor\<close>

datatype error = TypeError | KeyError | AttributeError

text \<open>
  A Python \<open>dict\<close> with string keys, in insertion order: \<open>d[k] = v\<close> replaces the value of
  a key that is present, in place, and appends a key that is not.
\<close>

fun dict_set :: "string \<Rightarrow> 'v \<Rightarrow> (string \<times> 'v) list \<Rightarrow> (string \<times> 'v) list" where
  "dict_set k v [] = [(k, v)]"
| "dict_set k v ((k', v') # kvs) =
     (if k' = k then (k, v) # kvs else (k', v') # dict_set k v kvs)"

text \<open>
  The dictionary \<open>content\<close> of \<open>extract_article_content\<close>. Its values are strings, except
  under the key \<open>other_metadata\<close>, which holds a dictionary (and holds a string once an
  assignment \<open>content['other_metadata'] = value\<close> has replaced it). The record keeps the
  string-valued entries in \<open>str_fields\<close> and the entry \<open>other_metadata\<close> apart.
\<close>

datatype metadata = MetaDict "(string \<times> string) list" | MetaStr string

record article =
  str_fields :: "(string \<times> string) list"
  other_metadata :: metadata

definition initial_fields :: "(string \<times> string) list" where
  "initial_fields =
     [(''title'', []), (''link'', []), (''description'', []), (''content'', []),
      (''pubDate'', []), (''post_id'', []), (''guid'', []), (''post_date'', []),
      (''post_date_gmt'', []), (''post_modified'', []), (''post_modified_gmt'', []),
      (''comment_status'', []), (''ping_status'', []), (''post_name'', []), (''status'', []),
      (''post_parent'', []), (''menu_order'', []), (''post_type'', []),
      (''post_password'', []), (''is_sticky'', []), (''creator'', [])]"

definition initial_content :: article where
  "initial_content = \<lparr>str_fields = initial_fields, other_metadata = MetaDict []\<rparr>"

text \<open>\<open>key in content\<close>.\<close>

definition in_content :: "string \<Rightarrow> article \<Rightarrow> bool" where
  "in_content key content = (key = ''other_metadata'' \<or> key \<in> fst ` set (str_fields content))"

text \<open>\<open>'wordpress.org' in elem.tag or '{}' in elem.tag\<close>.\<close>

definition is_wp_element :: "element \<Rightarrow> bool" where
  "is_wp_element elem = (py_in ''wordpress.org'' (tag elem) \<or> py_in ''{}'' (tag elem))"

text \<open>\<open>elem.text.strip() if elem.text else ''\<close>.\<close>

definition wp_value :: "element \<Rightarrow> string" where
  "wp_value elem = (case etext elem of None \<Rightarrow> [] | Some t \<Rightarrow> if t \<noteq> [] then py_strip t else [])"

text \<open>The first loop of \<open>extract_article_content\<close>, which fills \<open>wp_elements\<close>.\<close>

fun collect_wp_elements :: "element list \<Rightarrow> (string \<times> string) list \<Rightarrow> (string \<times> string) list" where
  "collect_wp_elements [] wp_elements = wp_elements"
| "collect_wp_elements (elem # rest) wp_elements =
     (let tag_name = cleanup_tag_name (tag elem)
      in if is_wp_element elem
         then collect_wp_elements rest (dict_set tag_name (wp_value elem) wp_elements)
         else collect_wp_elements rest wp_elements)"

text \<open>
  The last loop of \<open>extract_article_content\<close>. Writing under a key on
  \<open>content['other_metadata']\<close> raises \<open>TypeError\<close> when that entry is a string.
\<close>

fun merge_wp_elements :: "(string \<times> string) list \<Rightarrow> article \<Rightarrow> error + article" where
  "merge_wp_elements [] content = Inr content"
| "merge_wp_elements ((key, v) # rest) content =
     (if in_content key content
      then (if key = ''other_metadata''
            then merge_wp_elements rest (content\<lparr>other_metadata := MetaStr v\<rparr>)
            else merge_wp_elements rest (content\<lparr>str_fields := dict_set key v (str_fields content)\<rparr>))
      else (case other_metadata content of
              MetaDict d \<Rightarrow>
                merge_wp_elements rest (content\<lparr>other_metadata := MetaDict (dict_set key v d)\<rparr>)
            | MetaStr s \<Rightarrow> Inl TypeError))"

definition dc_creator_tag :: string where
  "dc_creator_tag = ''{http://purl.org/dc/elements/1.1/}creator''"

definition content_encoded_tag :: string where
  "content_encoded_tag = ''{http://purl.org/rss/1.0/modules/content/}encoded''"

text \<open>
  \<open>if elem is not None and elem.text: content[key] = elem.text.strip()\<close>, for the
  creator and the encoded content.
\<close>

definition set_if_text :: "string \<Rightarrow> element option \<Rightarrow> article \<Rightarrow> article" where
  "set_if_text key found content =
     (case found of
        None \<Rightarrow> content
      | Some e \<Rightarrow>
          (case etext e of
             None \<Rightarrow> content
           | Some t \<Rightarrow>
               if t \<noteq> [] then content\<lparr>str_fields := dict_set key (py_strip t) (str_fields content)\<rparr>
               else content))"

definition set_field :: "string \<Rightarrow> string \<Rightarrow> article \<Rightarrow> article" where
  "set_field key v content = content\<lparr>str_fields := dict_set key v (str_fields content)\<rparr>"

text \<open>
  The keys of \<open>content\<close> other than \<open>other_metadata\<close>, in the order of the dictionary
  literal: the canonical fields.
\<close>

definition canonical_fields :: "string list" where
  "canonical_fields =
     [''title'', ''link'', ''description'', ''content'', ''pubDate'', ''post_id'', ''guid'',
      ''post_date'', ''post_date_gmt'', ''post_modified'', ''post_modified_gmt'',
      ''comment_status'', ''ping_status'', ''post_name'', ''status'', ''post_parent'',
      ''menu_order'', ''post_type'', ''post_password'', ''is_sticky'', ''creator'']"

text \<open>
  \<open>content\<close> as it stands before the last loop of \<open>extract_article_content\<close>: title, link
  and guid from the Field Resolver, creator and content from the two fixed paths
  \<open>.//{http://purl.org/dc/elements/1.1/}creator\<close> and
  \<open>.//{http://purl.org/rss/1.0/modules/content/}encoded\<close>.
\<close>

definition resolved_content :: "element \<Rightarrow> article" where
  "resolved_content article_element =
     set_if_text ''content'' (et_find_descendant content_encoded_tag article_element)
       (set_if_text ''creator'' (et_find_descendant dc_creator_tag article_element)
          (set_field ''guid'' (find_text_by_tag_variants article_element [''guid''])
             (set_field ''link'' (find_text_by_tag_variants article_element [''link''])
                (set_field ''title'' (find_text_by_tag_variants article_element [''title''])
                   initial_content))))"

text \<open>\<open>XMLParser.extract_article_content\<close>.\<close>

definition extract_article_content :: "element \<Rightarrow> error + article" where
  "extract_article_content article_element =
     (let wp_elements = collect_wp_elements (children article_element) [];
          content = resolved_content article_element
      in merge_wp_elements wp_elements content)"

section \<open>Document Writer\<close>

text \<open>\<open>article_content[key]\<close> for a string-valued key: \<open>KeyError\<close> when the key is missing.\<close>

definition get_item :: "article \<Rightarrow> string \<Rightarrow> error + string" where
  "get_item content key =
     (case map_of (str_fields content) key of None \<Rightarrow> Inl KeyError | Some v \<Rightarrow> Inr v)"

text \<open>
  The keys of the nineteen statements \<open>lines.append(f"key: {safe_value(article_content['key'])}")\<close>
  of \<open>_format_as_markdown\<close>, in the order of the statements.
\<close>

definition header_keys :: "string list" where
  "header_keys =
     [''title'', ''post_id'', ''link'', ''guid'', ''description'', ''pubDate'', ''post_date'',
      ''post_date_gmt'', ''post_modified'', ''post_modified_gmt'', ''comment_status'',
      ''ping_status'', ''post_name'', ''status'', ''post_parent'', ''menu_order'',
      ''post_type'', ''post_password'', ''is_sticky'']"

text \<open>\<open>f"{key}: {safe_value(value)}"\<close>.\<close>

definition metadata_line :: "string \<Rightarrow> string \<Rightarrow> string" where
  "metadata_line key v = key @ '': '' @ safe_value (Some v)"

fun append_fields :: "article \<Rightarrow> string list \<Rightarrow> string list \<Rightarrow> error + string list" where
  "append_fields content [] lines = Inr lines"
| "append_fields content (key # keys) lines =
     (case get_item content key of
        Inl e \<Rightarrow> Inl e
      | Inr v \<Rightarrow> append_fields content keys (lines @ [metadata_line key v]))"

text \<open>
  The list \<open>lines\<close> of \<open>_format_as_markdown\<close> when the function returns. The entry
  \<open>other_metadata\<close> is always present in the record, so the default of
  \<open>article_content.get('other_metadata', {})\<close> is not needed; \<open>.items()\<close> on a string
  raises \<open>AttributeError\<close>.
\<close>

definition format_lines :: "article \<Rightarrow> error + string list" where
  "format_lines content =
     (case append_fields content header_keys [''---''] of
        Inl e \<Rightarrow> Inl e
      | Inr lines1 \<Rightarrow>
          (case other_metadata content of
             MetaStr s \<Rightarrow> Inl AttributeError
           | MetaDict d \<Rightarrow>
               (let lines2 = lines1 @ map (\<lambda>(key, v). metadata_line key v) d @ [''---'', []]
                in case get_item content ''content'' of
                     Inl e \<Rightarrow> Inl e
                   | Inr body \<Rightarrow>
                       Inr (lines2 @ [if body \<noteq> [] then body else ''(No content)'']))))"

text \<open>\<open>MarkdownExporter._format_as_markdown\<close>.\<close>

definition format_as_markdown :: "article \<Rightarrow> error + string" where
  "format_as_markdown content =
     (case format_lines content of Inl e \<Rightarrow> Inl e | Inr lines \<Rightarrow> Inr (py_join [NL] lines))"

section \<open>Markup tree\<close>

text \<open>
  The tree that \<open>BeautifulSoup(html_content, 'html.parser')\<close> builds. A string node has a
  class (\<open>NavigableString\<close> or one of its subclasses) and its text. A tag has a name, its
  attributes, the string classes that \<open>get_text\<close> collects when it is called on this tag
  (\<open>interesting_string_types\<close>: \<open>NavigableString\<close> and \<open>CData\<close> unless the tree builder
  chose otherwise), and its contents. The root of the tree is a tag named \<open>[document]\<close>.
  The parser itself is not modelled: the functions below take its result.
\<close>

datatype string_class =
  NavigableString | CData | Comment | Declaration | Doctype | ProcessingInstruction
  | Script | Stylesheet | TemplateString | RubyTextString | RubyParenthesisString

datatype node =
  Str string_class string
  | Tag string "(string \<times> string) list" "string_class list" "node list"

text \<open>The strings beneath a node (the node itself when it is a string), in document order.\<close>

fun strings_of :: "node \<Rightarrow> (string_class \<times> string) list" where
  "strings_of (Str c s) = [(c, s)]"
| "strings_of (Tag n a t cs) = concat (map strings_of cs)"

text \<open>
  \<open>element.get_text(separator)\<close> with \<open>strip=False\<close>: the strings beneath the tag whose
  class is one of the tag's interesting classes, joined by the separator.
\<close>

fun get_text :: "string \<Rightarrow> node \<Rightarrow> string" where
  "get_text sep (Str c s) = s"
| "get_text sep (Tag n a t cs) =
     py_join sep (map snd (filter (\<lambda>(c, s). c \<in> set t) (strings_of (Tag n a t cs))))"

text \<open>
  The getter of \<open>element.string\<close>: \<open>None\<close> unless the tag has exactly one child; that
  child when it is a string, and the \<open>.string\<close> of that child when it is a tag.
\<close>

fun get_string :: "node \<Rightarrow> string option" where
  "get_string (Str c s) = Some s"
| "get_string (Tag n a t []) = None"
| "get_string (Tag n a t [child]) = get_string child"
| "get_string (Tag n a t (child # other # rest)) = None"

text \<open>
  The setter of \<open>element.string\<close>: the contents are removed from the tag and one new
  \<open>NavigableString\<close> takes their place.
\<close>

fun set_string :: "node \<Rightarrow> string \<Rightarrow> node" where
  "set_string (Tag n a t cs) s = Tag n a t [Str NavigableString s]"
| "set_string (Str c x) s = Str c x"

text \<open>\<open>element.get(key, '')\<close>.\<close>

fun get_attr :: "node \<Rightarrow> string \<Rightarrow> string" where
  "get_attr (Tag n a t cs) key = (case map_of a key of None \<Rightarrow> [] | Some v \<Rightarrow> v)"
| "get_attr (Str c s) key = []"

text \<open>The tags of a subtree, its root first, in document order.\<close>

fun tags_of :: "node \<Rightarrow> node list" where
  "tags_of (Str c s) = []"
| "tags_of (Tag n a t cs) = Tag n a t cs # concat (map tags_of cs)"

fun has_name :: "string \<Rightarrow> node \<Rightarrow> bool" where
  "has_name nm (Tag n a t cs) = (n = nm)"
| "has_name nm (Str c s) = False"

text \<open>\<open>element.find(name)\<close>: the first tag of that name beneath the element.\<close>

fun find_tag :: "string \<Rightarrow> node \<Rightarrow> node option" where
  "find_tag nm (Tag n a t cs) = find (has_name nm) (concat (map tags_of cs))"
| "find_tag nm (Str c s) = None"

text \<open>\<open>element.find_all(name, recursive=False)\<close>: the children that are tags of that name.\<close>

fun find_children :: "string \<Rightarrow> node \<Rightarrow> node list" where
  "find_children nm (Tag n a t cs) = filter (has_name nm) cs"
| "find_children nm (Str c s) = []"

text \<open>
  \<open>element.find_all(recursive=True)\<close> returns the list of the tags beneath the element,
  in document order, as they are when it is called. The list holds the tag objects
  themselves. In the model a tag beneath the element is named by its path, the list of
  child positions that leads to it from the element.
\<close>

fun paths_in :: "node \<Rightarrow> nat list list" and paths_in_list :: "nat \<Rightarrow> node list \<Rightarrow> nat list list" where
  "paths_in (Str c s) = []"
| "paths_in (Tag n a t cs) = [] # paths_in_list 0 cs"
| "paths_in_list i [] = []"
| "paths_in_list i (c # cs) = map ((#) i) (paths_in c) @ paths_in_list (Suc i) cs"

fun find_all_paths :: "node \<Rightarrow> nat list list" where
  "find_all_paths (Tag n a t cs) = paths_in_list 0 cs"
| "find_all_paths (Str c s) = []"

fun node_at :: "node \<Rightarrow> nat list \<Rightarrow> node option" where
  "node_at e [] = Some e"
| "node_at (Str c s) (i # p) = None"
| "node_at (Tag n a t cs) (i # p) = (if i < length cs then node_at (cs ! i) p else None)"

fun replace_at :: "node \<Rightarrow> nat list \<Rightarrow> node \<Rightarrow> node" where
  "replace_at e [] r = r"
| "replace_at (Str c s) (i # p) r = Str c s"
| "replace_at (Tag n a t cs) (i # p) r =
     (if i < length cs then Tag n a t (cs[i := replace_at (cs ! i) p r]) else Tag n a t cs)"

section \<open>Markup Converter\<close>

text \<open>\<open>str(n)\<close> for a natural number.\<close>

definition digit_char :: "nat \<Rightarrow> char" where
  "digit_char d = ''0123456789'' ! d"

function str_nat :: "nat \<Rightarrow> string" where
  "str_nat n = (if n < 10 then [digit_char n] else str_nat (n div 10) @ [digit_char (n mod 10)])"
  by pat_completeness auto
termination
  by (relation "measure id") auto

declare str_nat.simps [simp del]

text \<open>\<open>f"{x}"\<close> for \<open>x\<close> a string or \<open>None\<close>.\<close>

definition py_format :: "string option \<Rightarrow> string" where
  "py_format x = (case x of None \<Rightarrow> ''None'' | Some s \<Rightarrow> s)"

text \<open>\<open>element.string = f"{'#' * level} {element.string}\n\n"\<close>, the six heading branches.\<close>

definition heading :: "nat \<Rightarrow> node \<Rightarrow> node" where
  "heading level element =
     set_string element (replicate level (CHR ''#'') @ '' '' @ py_format (get_string element) @ [NL, NL])"

text \<open>
  The loop over \<open>element.children\<close> in the branch for \<open>p\<close>: a string child gives its
  stripped text, a tag child is processed (\<open>rec\<close> is the recursive call) and gives its
  \<open>get_text()\<close>.
\<close>

fun paragraph_texts :: "(node \<Rightarrow> node option) \<Rightarrow> node list \<Rightarrow> string list option" where
  "paragraph_texts rec [] = Some []"
| "paragraph_texts rec (Str c s # rest) =
     (case paragraph_texts rec rest of None \<Rightarrow> None | Some texts \<Rightarrow> Some (py_strip s # texts))"
| "paragraph_texts rec (Tag n a t cs # rest) =
     (case rec (Tag n a t cs) of
        None \<Rightarrow> None
      | Some child \<Rightarrow>
          (case paragraph_texts rec rest of
             None \<Rightarrow> None
           | Some texts \<Rightarrow> Some (get_text [] child # texts)))"

text \<open>The items of the branches for \<open>ul\<close> and \<open>ol\<close> (\<open>enumerate\<close> starts at 1).\<close>

definition bullet_items :: "node list \<Rightarrow> string list" where
  "bullet_items lis = map (\<lambda>li. ''- '' @ py_strip (get_text [] li)) lis"

fun numbered_items :: "nat \<Rightarrow> node list \<Rightarrow> string list" where
  "numbered_items idx [] = []"
| "numbered_items idx (li # rest) =
     (str_nat idx @ ''. '' @ py_strip (get_text [] li)) # numbered_items (Suc idx) rest"

text \<open>
  The \<open>if\<close>/\<open>elif\<close> chain of \<open>_process_element\<close>: what the element is after it. A \<open>Tag\<close> is
  always true in a condition, so \<open>if img\<close> and \<open>if figcaption\<close> test for \<open>None\<close>; a
  \<open>NavigableString\<close> is true when it is not empty.
\<close>

fun rewrite_element :: "(node \<Rightarrow> node option) \<Rightarrow> node \<Rightarrow> node option" where
  "rewrite_element rec (Str c s) = Some (Str c s)"
| "rewrite_element rec (Tag n a t cs) =
     (let element = Tag n a t cs in
      if n = ''h1'' then Some (heading 1 element)
      else if n = ''h2'' then Some (heading 2 element)
      else if n = ''h3'' then Some (heading 3 element)
      else if n = ''h4'' then Some (heading 4 element)
      else if n = ''h5'' then Some (heading 5 element)
      else if n = ''h6'' then Some (heading 6 element)
      else if n = ''p'' then
        (case get_string element of
           Some s \<Rightarrow>
             if s \<noteq> [] then Some (set_string element (s @ [NL, NL]))
             else (case paragraph_texts rec cs of
                     None \<Rightarrow> None
                   | Some texts \<Rightarrow> Some (set_string element (py_join '' '' texts @ [NL, NL])))
         | None \<Rightarrow>
             (case paragraph_texts rec cs of
                None \<Rightarrow> None
              | Some texts \<Rightarrow> Some (set_string element (py_join '' '' texts @ [NL, NL]))))
      else if n = ''a'' then
        (let href = get_attr element ''href'';
             text = (case get_string element of
                       None \<Rightarrow> href
                     | Some s \<Rightarrow> if s \<noteq> [] then s else href)
         in Some (set_string element (''['' @ text @ '']('' @ href @ '')'')))
      else if n = ''img'' then
        Some (set_string element (''![]('' @ get_attr element ''src'' @ '')''))
      else if n = ''figure'' then
        (case find_tag ''img'' element of
           None \<Rightarrow> Some element
         | Some img \<Rightarrow>
             (let src = get_attr img ''src'';
                  caption = (case find_tag ''figcaption'' element of
                               None \<Rightarrow> Some []
                             | Some figcaption \<Rightarrow> get_string figcaption)
              in Some (set_string element
                         (''!['' @ py_format caption @ '']('' @ src @ '')'' @ [NL, NL]))))
      else if n = ''figcaption'' then Some (set_string element [])
      else if n = ''ul'' then
        Some (set_string element
                (py_join [NL] (bullet_items (find_children ''li'' element)) @ [NL, NL]))
      else if n = ''ol'' then
        Some (set_string element
                (py_join [NL] (numbered_items 1 (find_children ''li'' element)) @ [NL, NL]))
      else if n = ''br'' then Some (set_string element [NL])
      else Some element)"

text \<open>
  The final loop of \<open>_process_element\<close>, \<open>for child in element.find_all(recursive=True)\<close>.
  The list is taken once, before the loop, and each entry is processed in turn, whatever
  the earlier entries did to the tree. An entry is still part of the element's tree
  exactly when its path still leads to a tag: the only change that \<open>_process_element\<close>
  makes to a tag is to replace its contents by one string, which detaches everything that
  was beneath it and leaves no tag there. For such an entry the result of the call
  replaces the subtree. The source also processes the entries that are detached by
  then: each is a call of the same function on a tree that is no deeper than it was
  when the list was taken, it changes the detached subtree only, and nothing reads that
  subtree afterwards. The model skips these calls.
\<close>

fun for_each_tag :: "(node \<Rightarrow> node option) \<Rightarrow> nat list list \<Rightarrow> node \<Rightarrow> node option" where
  "for_each_tag rec [] element = Some element"
| "for_each_tag rec (p # ps) element =
     (case node_at element p of
        Some (Tag n a t cs) \<Rightarrow>
          (case rec (Tag n a t cs) of
             None \<Rightarrow> None
           | Some child \<Rightarrow> for_each_tag rec ps (replace_at element p child))
      | _ \<Rightarrow> for_each_tag rec ps element)"

text \<open>The body of \<open>_process_element\<close>, with \<open>rec\<close> for its recursive calls.\<close>

definition process_body :: "(node \<Rightarrow> node option) \<Rightarrow> node \<Rightarrow> node option" where
  "process_body rec element =
     (case rewrite_element rec element of
        None \<Rightarrow> None
      | Some element' \<Rightarrow> for_each_tag rec (find_all_paths element') element')"

text \<open>
  \<open>MarkdownExporter._process_element\<close>. The first argument bounds the depth of the
  recursion: the result is \<open>None\<close> when the calls nest deeper than that, and the element
  as the call leaves it otherwise.
\<close>

primrec process_element :: "nat \<Rightarrow> node \<Rightarrow> node option" where
  "process_element 0 element = None"
| "process_element (Suc depth) element = process_body (process_element depth) element"

text \<open>
  \<open>re.sub(r'\n\s*\n\s*\n+', '\n\n', s)\<close>. At a newline, let \<open>run\<close> be the whitespace that
  follows it, as far as it goes. The pattern matches there exactly when \<open>run\<close> holds two
  newlines or more: the first \<open>\s*\<close> is greedy and gives back characters until two
  newlines are left for the rest of the pattern, the second \<open>\s*\<close> then reaches the last
  newline of \<open>run\<close>, so the match ends right after that newline. The search goes on
  after the match.
\<close>

definition after_last_newline :: "string \<Rightarrow> nat" where
  "after_last_newline run = length run - length (takeWhile (\<lambda>x. x \<noteq> NL) (rev run))"

function sub_blank_lines :: "string \<Rightarrow> string" where
  "sub_blank_lines [] = []"
| "sub_blank_lines (c # cs) =
     (if c = NL \<and> 2 \<le> count_list (takeWhile py_isspace cs) NL
      then NL # NL # sub_blank_lines (drop (after_last_newline (takeWhile py_isspace cs)) cs)
      else c # sub_blank_lines cs)"
  by pat_completeness auto
termination
  by (relation "measure length") auto

text \<open>
  \<open>re.sub(r' +$', '', s, flags=re.MULTILINE)\<close>: a run of spaces is removed when the end
  of the string or a newline follows it.
\<close>

function sub_trailing_spaces :: "string \<Rightarrow> string" where
  "sub_trailing_spaces [] = []"
| "sub_trailing_spaces (c # cs) =
     (if c = CHR '' '' then
        (case dropWhile (\<lambda>x. x = CHR '' '') cs of
           [] \<Rightarrow> []
         | x # rest \<Rightarrow>
             if x = NL then sub_trailing_spaces (dropWhile (\<lambda>x. x = CHR '' '') cs)
             else c # sub_trailing_spaces cs)
      else c # sub_trailing_spaces cs)"
  by pat_completeness auto
termination
proof (relation "measure length", goal_cases)
  case 1
  show ?case by simp
next
  case (2 c cs x rest)
  have "length (dropWhile (\<lambda>x. x = CHR '' '') cs) \<le> length cs"
    by (rule length_dropWhile_le)
  then show ?case by simp
next
  case (3 c cs x rest)
  then show ?case by simp
next
  case (4 c cs)
  then show ?case by simp
qed

text \<open>
  \<open>MarkdownExporter.html_to_markdown\<close>. \<open>soup\<close> is the tree that the parser builds from
  \<open>html_content\<close>, \<open>depth\<close> the bound on the recursion of \<open>_process_element\<close>.
\<close>

definition html_to_markdown :: "node \<Rightarrow> nat \<Rightarrow> string \<Rightarrow> string option" where
  "html_to_markdown soup depth html_content =
     (if html_content = [] then Some []
      else (case process_element depth soup of
              None \<Rightarrow> None
            | Some soup' \<Rightarrow>
                Some (py_strip (sub_trailing_spaces (sub_blank_lines (get_text [NL] soup'))))))"

section \<open>Export of one record\<close>

text \<open>\<open>f"{index:03d}"\<close> for an index that is not negative.\<close>

definition format_03d :: "nat \<Rightarrow> string" where
  "format_03d index = replicate (3 - length (str_nat index)) (CHR ''0'') @ str_nat index"

text \<open>
  \<open>MarkdownExporter.export_article\<close>. The result is the name of the file inside the
  output directory and the text written to it; \<open>None\<close> when the conversion of the body
  did not finish within \<open>depth\<close>.
\<close>

definition export_article ::
  "(string \<Rightarrow> string option) \<Rightarrow> (string \<Rightarrow> string) \<Rightarrow> node \<Rightarrow> nat \<Rightarrow> article \<Rightarrow> nat
     \<Rightarrow> (error + string \<times> string) option" where
  "export_article unquote nfkc soup depth article_content index =
     (case get_item article_content ''title'' of
        Inl e \<Rightarrow> Some (Inl e)
      | Inr title \<Rightarrow>
          (let filename = (if title \<noteq> [] then sanitize_filename unquote nfkc title @ ''.md''
                           else ''article_'' @ format_03d index @ ''.md'')
           in case get_item article_content ''content'' of
                Inl e \<Rightarrow> Some (Inl e)
              | Inr html \<Rightarrow>
                  (case (if html \<noteq> []
                         then map_option (\<lambda>markdown. set_field ''content'' markdown article_content)
                                (html_to_markdown soup depth html)
                         else Some article_content) of
                     None \<Rightarrow> None
                   | Some converted \<Rightarrow>
                       (case format_as_markdown converted of
                          Inl e \<Rightarrow> Some (Inl e)
                        | Inr markdown_content \<Rightarrow> Some (Inr (filename, markdown_content))))))"

section \<open>Measures and predicates for the proofs\<close>

text \<open>
  The nesting depth of the tags of a markup tree: a string has depth 0, a tag one more
  than the deepest of its contents.
\<close>

fun height :: "node \<Rightarrow> nat" where
  "height (Str c s) = 0"
| "height (Tag n a t cs) = Suc (Max (insert 0 (height ` set cs)))"

text \<open>
  \<open>nl_bounded n s\<close>: reading \<open>s\<close> from the left, with \<open>n\<close> newlines already seen in the
  stretch of whitespace that is being read, no stretch of whitespace holds more than two
  newlines.
\<close>

fun nl_bounded :: "nat \<Rightarrow> string \<Rightarrow> bool" where
  "nl_bounded n [] = True"
| "nl_bounded n (c # cs) =
     (if c = NL then n < 2 \<and> nl_bounded (Suc n) cs
      else if py_isspace c then nl_bounded n cs
      else nl_bounded 0 cs)"


section \<open>Example inputs\<close>




text \<open>A record node whose only child is a Dublin Core \<open>subject\<close>.\<close>

definition dc_subject_item :: element where
  "dc_subject_item = Element ''item'' [] None
     [Element ''{http://purl.org/dc/elements/1.1/}subject'' [] (Some ''x'') []]"

text \<open>
  A record node with three children in the WordPress export namespace: a \<open>post_id\<close> and
  two \<open>custom\<close> elements.
\<close>

definition wp_item :: element where
  "wp_item = Element ''item'' [] None
     [Element ''{http://wordpress.org/export/1.2/}post_id'' [] (Some ''7'') [],
      Element ''{http://wordpress.org/export/1.2/}custom'' [] (Some '' a '') [],
      Element ''{http://wordpress.org/export/1.2/}custom'' [] (Some ''b'') []]"

text \<open>A record with a title, a creator and one entry in \<open>other_metadata\<close>.\<close>

definition creator_article :: article where
  "creator_article =
     \<lparr>str_fields = dict_set ''creator'' ''alice'' (dict_set ''title'' ''T'' initial_fields),
      other_metadata = MetaDict [(''custom'', ''a:b'')]\<rparr>"

text \<open>
  The round-trip scenario: the tree of \<open><h1>Title</h1><p>Body text</p>\<close>, the record
  with title \<open>Hello: World\<close> and \<open>post_id\<close> 1, and the text of the file that is expected.
\<close>

definition hello_soup :: node where
  "hello_soup = Tag ''[document]'' [] [NavigableString, CData]
     [Tag ''h1'' [] [NavigableString, CData] [Str NavigableString ''Title''],
      Tag ''p'' [] [NavigableString, CData] [Str NavigableString ''Body text'']]"

definition hello_article :: article where
  "hello_article =
     \<lparr>str_fields = dict_set ''content'' ''<h1>Title</h1><p>Body text</p>''
                     (dict_set ''post_id'' ''1'' (dict_set ''title'' ''Hello: World'' initial_fields)),
      other_metadata = MetaDict []\<rparr>"

definition hello_file :: string where
  "hello_file = py_join [NL]
     [''---'',
      ''title: '' @ [DQUOTE] @ ''Hello: World'' @ [DQUOTE],
      ''post_id: 1'',
      ''link: '' @ [DQUOTE, DQUOTE],
      ''guid: '' @ [DQUOTE, DQUOTE],
      ''description: '' @ [DQUOTE, DQUOTE],
      ''pubDate: '' @ [DQUOTE, DQUOTE],
      ''post_date: '' @ [DQUOTE, DQUOTE],
      ''post_date_gmt: '' @ [DQUOTE, DQUOTE],
      ''post_modified: '' @ [DQUOTE, DQUOTE],
      ''post_modified_gmt: '' @ [DQUOTE, DQUOTE],
      ''comment_status: '' @ [DQUOTE, DQUOTE],
      ''ping_status: '' @ [DQUOTE, DQUOTE],
      ''post_name: '' @ [DQUOTE, DQUOTE],
      ''status: '' @ [DQUOTE, DQUOTE],
      ''post_parent: '' @ [DQUOTE, DQUOTE],
      ''menu_order: '' @ [DQUOTE, DQUOTE],
      ''post_type: '' @ [DQUOTE, DQUOTE],
      ''post_password: '' @ [DQUOTE, DQUOTE],
      ''is_sticky: '' @ [DQUOTE, DQUOTE],
      ''---'',
      [],
      ''# Title'',
      [],
      ''Body text'']"


section \<open>Properties of the Filename Sanitizer\<close>

lemma sub_forbidden_clean: "c \<in> set forbidden_chars \<Longrightarrow> c \<notin> set (sub_forbidden s)"
  by (auto simp: sub_forbidden_def forbidden_chars_def DQUOTE_def BACKSLASH_def)

lemma sub_whitespace_runs_chars:
  "set (sub_whitespace_runs s) \<subseteq> insert (CHR ''_'') (set s)"
proof (induction s rule: sub_whitespace_runs.induct)
  case 1
  then show ?case by simp
next
  case (2 c cs)
  have "set (dropWhile py_isspace cs) \<subseteq> set cs"
    by (simp add: set_dropWhileD subsetI)
  with 2 show ?case by auto
qed

lemma underscore_allowed: "CHR ''_'' \<notin> set forbidden_chars"
  by (simp add: forbidden_chars_def DQUOTE_def BACKSLASH_def)

text \<open>
  C7. For every input string (and whatever the percent decoding and the normalisation
  return), the sanitized name has at most 100 characters and contains none of
  \<open>< > : " / \ | ? *\<close>. The sanitizer reads nothing but its argument: in the embedding
  it is a function of the input string and of the two library functions, so equal inputs
  give equal outputs.
\<close>

theorem sanitize_filename_bounded_and_clean:
  "length (sanitize_filename unquote nfkc s) \<le> 100 \<and>
   (\<forall>c \<in> set forbidden_chars. c \<notin> set (sanitize_filename unquote nfkc s))"
proof
  show "length (sanitize_filename unquote nfkc s) \<le> 100"
    by (simp add: sanitize_filename_def Let_def)
next
  show "\<forall>c \<in> set forbidden_chars. c \<notin> set (sanitize_filename unquote nfkc s)"
  proof
    fix c assume c: "c \<in> set forbidden_chars"
    let ?t = "nfkc (case unquote s of None \<Rightarrow> s | Some d \<Rightarrow> d)"
    have "c \<notin> set (sub_forbidden ?t)" using c by (rule sub_forbidden_clean)
    moreover have "c \<noteq> CHR ''_''" using c underscore_allowed by auto
    ultimately have "c \<notin> set (sub_whitespace_runs (sub_forbidden ?t))"
      using sub_whitespace_runs_chars [of "sub_forbidden ?t"] by auto
    then show "c \<notin> set (sanitize_filename unquote nfkc s)"
      by (auto simp: sanitize_filename_def Let_def dest: in_set_takeD)
  qed
qed

theorem sanitize_filename_bounded_and_clean_witness:
  "length (sanitize_filename Some id ''a<b  c?'') \<le> 100 \<and>
   CHR ''<'' \<notin> set (sanitize_filename Some id ''a<b  c?'') \<and>
   CHR ''?'' \<notin> set (sanitize_filename Some id ''a<b  c?'') \<and>
   sanitize_filename Some id ''a<b  c?'' = ''a_b_c_''"
  using sanitize_filename_bounded_and_clean [of Some id "''a<b  c?''"]
  by (simp add: sanitize_filename_def sub_forbidden_def forbidden_chars_def py_isspace_def
      py_whitespace_def DQUOTE_def BACKSLASH_def)

section \<open>Properties of the value serializer\<close>

text \<open>
  C9. For every metadata value that contains a double-quote character, the serializer
  returns a double quote, the value unchanged (its own double quotes are not escaped),
  and a closing double quote.
\<close>

theorem safe_value_quote_unescaped:
  "DQUOTE \<in> set v \<Longrightarrow> safe_value (Some v) = [DQUOTE] @ v @ [DQUOTE]"
  by (auto simp: safe_value_def)

theorem safe_value_quote_unescaped_witness:
  "DQUOTE \<in> set [CHR ''a'', DQUOTE, CHR ''b''] \<and>
   safe_value (Some [CHR ''a'', DQUOTE, CHR ''b'']) = [DQUOTE, CHR ''a'', DQUOTE, CHR ''b'', DQUOTE]"
  using safe_value_quote_unescaped [of "[CHR ''a'', DQUOTE, CHR ''b'']"]
  by simp

lemmas char_defs = NL_def TAB_def DQUOTE_def BACKSLASH_def py_isspace_def py_whitespace_def

section \<open>Properties of the Field Resolver\<close>














section \<open>Properties of the Record Extractor\<close>

lemma dict_set_keys_present: "k \<in> fst ` set d \<Longrightarrow> map fst (dict_set k v d) = map fst d"
  by (induction d) force+


lemma map_of_dict_set: "map_of (dict_set k v d) = (map_of d)(k \<mapsto> v)"
  by (induction d) (auto simp: fun_eq_iff)

lemma keys_dict_set: "fst ` set (dict_set k v d) = insert k (fst ` set d)"
  by (induction d) (simp, force)

lemma distinct_dict_set: "distinct (map fst d) \<Longrightarrow> distinct (map fst (dict_set k v d))"
proof (induction d)
  case Nil
  then show ?case by simp
next
  case (Cons a d)
  then show ?case using keys_dict_set [of k v d] by (cases a) auto
qed


lemma collect_keys:
  "fst ` set (collect_wp_elements es wp) =
     fst ` set wp \<union> (\<lambda>e. cleanup_tag_name (tag e)) ` {e \<in> set es. is_wp_element e}"
  by (induction es arbitrary: wp) (auto simp: Let_def keys_dict_set)

lemma collect_distinct:
  "distinct (map fst wp) \<Longrightarrow> distinct (map fst (collect_wp_elements es wp))"
  by (induction es arbitrary: wp) (auto simp: Let_def distinct_dict_set)

lemma collect_map_of:
  "map_of (collect_wp_elements es wp) =
     map_of wp ++ map_of (rev (map (\<lambda>e. (cleanup_tag_name (tag e), wp_value e)) (filter is_wp_element es)))"
proof (induction es arbitrary: wp)
  case Nil
  then show ?case by simp
next
  case (Cons e es)
  show ?case
  proof (cases "is_wp_element e")
    case True
    then show ?thesis
      by (simp add: Cons Let_def map_of_dict_set fun_eq_iff map_add_def split: option.splits)
  next
    case False
    then show ?thesis by (simp add: Cons Let_def)
  qed
qed

lemma map_of_rev_last:
  "k \<notin> fst ` set ys \<Longrightarrow> map_of (rev (xs @ (k, v) # ys)) k = Some v"
proof -
  assume "k \<notin> fst ` set ys"
  then have "map_of (rev ys) k = None" by (simp add: map_of_eq_None_iff)
  then show ?thesis by (simp add: map_add_def)
qed

lemma collect_last_wins:
  assumes "filter is_wp_element es = xs @ e # ys"
    and "\<forall>y \<in> set ys. cleanup_tag_name (tag y) \<noteq> cleanup_tag_name (tag e)"
  shows "map_of (collect_wp_elements es wp) (cleanup_tag_name (tag e)) = Some (wp_value e)"
proof -
  let ?kv = "\<lambda>e. (cleanup_tag_name (tag e), wp_value e)"
  have "cleanup_tag_name (tag e) \<notin> fst ` set (map ?kv ys)" using assms(2) by auto
  then have "map_of (rev (map ?kv xs @ ?kv e # map ?kv ys)) (cleanup_tag_name (tag e)) = Some (wp_value e)"
    by (rule map_of_rev_last)
  then show ?thesis by (simp add: collect_map_of assms(1) map_add_def)
qed


lemma merge_untouched:
  "merge_wp_elements wp c0 = Inr c \<Longrightarrow> k \<notin> fst ` set wp \<Longrightarrow>
   map_of (str_fields c) k = map_of (str_fields c0) k"
proof (induction wp arbitrary: c0)
  case Nil
  then show ?case by simp
next
  case (Cons kv wp)
  obtain k' v where kv: "kv = (k', v)" by (cases kv)
  from Cons.prems show ?case
    unfolding kv
    by (auto simp: in_content_def map_of_dict_set split: if_splits metadata.splits
        dest!: Cons.IH)
qed

lemma merge_untouched_meta:
  "merge_wp_elements wp c0 = Inr c \<Longrightarrow> ''other_metadata'' \<notin> fst ` set wp \<Longrightarrow>
   k \<notin> fst ` set wp \<Longrightarrow> other_metadata c0 = MetaDict d0 \<Longrightarrow>
   \<exists>om. other_metadata c = MetaDict om \<and> map_of om k = map_of d0 k"
proof (induction wp arbitrary: c0 d0)
  case Nil
  then show ?case by simp
next
  case (Cons kv wp)
  obtain k' v where kv: "kv = (k', v)" by (cases kv)
  from Cons.prems have ne: "k' \<noteq> ''other_metadata''" "k' \<noteq> k"
    and rest: "''other_metadata'' \<notin> fst ` set wp" "k \<notin> fst ` set wp"
    by (auto simp: kv)
  show ?case
  proof (cases "in_content k' c0")
    case True
    with Cons.prems(1) ne
    have m: "merge_wp_elements wp (c0\<lparr>str_fields := dict_set k' v (str_fields c0)\<rparr>) = Inr c"
      by (simp add: kv)
    show ?thesis
      using Cons.IH [OF m rest, of d0] Cons.prems(4) by simp
  next
    case False
    with Cons.prems(1,4)
    have m: "merge_wp_elements wp (c0\<lparr>other_metadata := MetaDict (dict_set k' v d0)\<rparr>) = Inr c"
      by (simp add: kv)
    show ?thesis
      using Cons.IH [OF m rest, of "dict_set k' v d0"] ne by (simp add: map_of_dict_set)
  qed
qed

lemma merge_result:
  assumes "''other_metadata'' \<notin> fst ` set wp" and "distinct (map fst wp)"
    and "other_metadata c0 = MetaDict d0"
  shows "\<exists>c om. merge_wp_elements wp c0 = Inr c \<and> other_metadata c = MetaDict om \<and>
           (\<forall>k v. map_of wp k = Some v \<longrightarrow>
              (if k \<in> fst ` set (str_fields c0) then map_of (str_fields c) k = Some v
               else map_of om k = Some v))"
  using assms
proof (induction wp arbitrary: c0 d0)
  case Nil
  then show ?case by simp
next
  case (Cons kv wp)
  obtain k v where kv: "kv = (k, v)" by (cases kv)
  from Cons.prems have ne: "k \<noteq> ''other_metadata''"
    and rest: "''other_metadata'' \<notin> fst ` set wp" "distinct (map fst wp)"
    and fresh: "k \<notin> fst ` set wp"
    by (auto simp: kv)
  show ?case
  proof (cases "k \<in> fst ` set (str_fields c0)")
    case True
    let ?c1 = "c0\<lparr>str_fields := dict_set k v (str_fields c0)\<rparr>"
    have step: "merge_wp_elements (kv # wp) c0 = merge_wp_elements wp ?c1"
      using True ne by (simp add: kv in_content_def)
    have o1: "other_metadata ?c1 = MetaDict d0" using Cons.prems(3) by simp
    have keys1: "fst ` set (str_fields ?c1) = fst ` set (str_fields c0)"
      using True by (auto simp: keys_dict_set)
    from Cons.IH [OF rest o1] obtain c om where
      m: "merge_wp_elements wp ?c1 = Inr c" and om: "other_metadata c = MetaDict om"
      and vals: "\<forall>k' v'. map_of wp k' = Some v' \<longrightarrow>
              (if k' \<in> fst ` set (str_fields ?c1) then map_of (str_fields c) k' = Some v'
               else map_of om k' = Some v')"
      by blast
    have "map_of (str_fields c) k = Some v"
      using merge_untouched [OF m fresh] by (simp add: map_of_dict_set)
    with vals keys1 True have "\<forall>k' v'. map_of (kv # wp) k' = Some v' \<longrightarrow>
              (if k' \<in> fst ` set (str_fields c0) then map_of (str_fields c) k' = Some v'
               else map_of om k' = Some v')"
      by (auto simp: kv)
    with m om step show ?thesis by auto
  next
    case False
    let ?c1 = "c0\<lparr>other_metadata := MetaDict (dict_set k v d0)\<rparr>"
    have step: "merge_wp_elements (kv # wp) c0 = merge_wp_elements wp ?c1"
      using False ne Cons.prems(3) by (simp add: kv in_content_def)
    have o1: "other_metadata ?c1 = MetaDict (dict_set k v d0)" by simp
    from Cons.IH [OF rest o1] obtain c om where
      m: "merge_wp_elements wp ?c1 = Inr c" and om: "other_metadata c = MetaDict om"
      and vals: "\<forall>k' v'. map_of wp k' = Some v' \<longrightarrow>
              (if k' \<in> fst ` set (str_fields ?c1) then map_of (str_fields c) k' = Some v'
               else map_of om k' = Some v')"
      by blast
    have "map_of om k = Some v"
      using merge_untouched_meta [OF m rest(1) fresh o1] om by (simp add: map_of_dict_set)
    with vals False have "\<forall>k' v'. map_of (kv # wp) k' = Some v' \<longrightarrow>
              (if k' \<in> fst ` set (str_fields c0) then map_of (str_fields c) k' = Some v'
               else map_of om k' = Some v')"
      by (auto simp: kv)
    with m om step show ?thesis by auto
  qed
qed


lemma keys_set_field:
  "k' \<in> fst ` set (str_fields c) \<Longrightarrow> map fst (str_fields (set_field k' v c)) = map fst (str_fields c)"
  by (simp add: set_field_def dict_set_keys_present)

lemma keys_set_if_text:
  "k' \<in> fst ` set (str_fields c) \<Longrightarrow> map fst (str_fields (set_if_text k' f c)) = map fst (str_fields c)"
  by (simp add: set_if_text_def dict_set_keys_present split: option.splits)

lemma other_metadata_set_field [simp]: "other_metadata (set_field k v c) = other_metadata c"
  by (simp add: set_field_def)

lemma other_metadata_set_if_text [simp]: "other_metadata (set_if_text k f c) = other_metadata c"
  by (simp add: set_if_text_def split: option.splits)



lemma keys_initial: "map fst initial_fields = canonical_fields"
  by (simp add: initial_fields_def canonical_fields_def)


lemma extract_unfold:
  "extract_article_content node =
     merge_wp_elements (collect_wp_elements (children node) []) (resolved_content node)"
  by (simp add: extract_article_content_def Let_def)

lemma keys_resolved: "map fst (str_fields (resolved_content node)) = canonical_fields"
proof -
  have k: "map fst (str_fields initial_content) = canonical_fields"
    by (simp add: initial_content_def keys_initial)
  have mem: "\<And>c k. map fst (str_fields c) = canonical_fields \<Longrightarrow> k \<in> set canonical_fields \<Longrightarrow>
               k \<in> fst ` set (str_fields c)"
    by (metis list.set_map)
  have m: "''title'' \<in> set canonical_fields" "''link'' \<in> set canonical_fields"
    "''guid'' \<in> set canonical_fields" "''creator'' \<in> set canonical_fields"
    "''content'' \<in> set canonical_fields"
    by (simp_all add: canonical_fields_def)
  show ?thesis
    unfolding resolved_content_def
    by (simp add: keys_set_field keys_set_if_text mem m k)
qed

lemma other_metadata_resolved: "other_metadata (resolved_content node) = MetaDict []"
  by (simp add: resolved_content_def initial_content_def)




text \<open>
  The claim C4 speaks of every namespaced child. A child in the Dublin Core namespace
  with the bare name \<open>subject\<close>, which is no canonical field, is not collected:
  \<open>other_metadata\<close> stays empty.
\<close>

theorem extract_other_namespace_counterexample:
  "cleanup_tag_name ''{http://purl.org/dc/elements/1.1/}subject'' = ''subject'' \<and>
   extract_article_content dc_subject_item =
     Inr \<lparr>str_fields = initial_fields, other_metadata = MetaDict []\<rparr>"
  by (simp add: extract_article_content_def resolved_content_def dc_subject_item_def
      is_wp_element_def Let_def find_text_by_tag_variants_def stripped_text_def
      et_find_child_def et_find_descendant_def descendants_def dc_creator_tag_def
      content_encoded_tag_def set_if_text_def set_field_def initial_content_def
      initial_fields_def cleanup_tag_name_def)

text \<open>
  C4, as amended. The children that are collected are the immediate children whose tag
  contains \<open>wordpress.org\<close> or \<open>{}\<close>. When none of them has the bare name
  \<open>other_metadata\<close>, the extractor returns a record, \<open>other_metadata\<close> is a mapping, and for
  every collected child that is the last one with its bare name, the stripped text of
  the child (the empty string when it has none) is the value of the canonical field of
  that name when the name is canonical, and the value under that name in
  \<open>other_metadata\<close> otherwise.
\<close>

theorem extract_wp_children_merged:
  assumes "\<forall>e \<in> set (children node). is_wp_element e \<longrightarrow> cleanup_tag_name (tag e) \<noteq> ''other_metadata''"
  shows "\<exists>c om. extract_article_content node = Inr c \<and> other_metadata c = MetaDict om \<and>
           (\<forall>xs e ys. filter is_wp_element (children node) = xs @ e # ys \<and>
                (\<forall>y \<in> set ys. cleanup_tag_name (tag y) \<noteq> cleanup_tag_name (tag e)) \<longrightarrow>
                (if cleanup_tag_name (tag e) \<in> set canonical_fields
                 then map_of (str_fields c) (cleanup_tag_name (tag e)) = Some (wp_value e)
                 else map_of om (cleanup_tag_name (tag e)) = Some (wp_value e)))"
proof -
  let ?wp = "collect_wp_elements (children node) []"
  have no: "''other_metadata'' \<notin> fst ` set ?wp"
    using assms by (auto simp: collect_keys)
  have d: "distinct (map fst ?wp)" by (simp add: collect_distinct)
  from merge_result [OF no d other_metadata_resolved [of node]]
  obtain c om where m: "merge_wp_elements ?wp (resolved_content node) = Inr c"
    and om: "other_metadata c = MetaDict om"
    and vals: "\<forall>k v. map_of ?wp k = Some v \<longrightarrow>
              (if k \<in> fst ` set (str_fields (resolved_content node)) then map_of (str_fields c) k = Some v
               else map_of om k = Some v)"
    by blast
  have keys: "fst ` set (str_fields (resolved_content node)) = set canonical_fields"
    using keys_resolved [of node] by (metis list.set_map)
  have "\<forall>xs e ys. filter is_wp_element (children node) = xs @ e # ys \<and>
                (\<forall>y \<in> set ys. cleanup_tag_name (tag y) \<noteq> cleanup_tag_name (tag e)) \<longrightarrow>
                (if cleanup_tag_name (tag e) \<in> set canonical_fields
                 then map_of (str_fields c) (cleanup_tag_name (tag e)) = Some (wp_value e)
                 else map_of om (cleanup_tag_name (tag e)) = Some (wp_value e))"
  proof (intro allI impI)
    fix xs e ys
    assume a: "filter is_wp_element (children node) = xs @ e # ys \<and>
                (\<forall>y \<in> set ys. cleanup_tag_name (tag y) \<noteq> cleanup_tag_name (tag e))"
    then have "map_of ?wp (cleanup_tag_name (tag e)) = Some (wp_value e)"
      using collect_last_wins [of "children node" xs e ys "[]"] by blast
    with vals keys show "if cleanup_tag_name (tag e) \<in> set canonical_fields
                 then map_of (str_fields c) (cleanup_tag_name (tag e)) = Some (wp_value e)
                 else map_of om (cleanup_tag_name (tag e)) = Some (wp_value e)"
      by simp
  qed
  with m om show ?thesis by (auto simp: extract_unfold)
qed

theorem extract_wp_children_merged_witness:
  "extract_article_content wp_item =
     Inr \<lparr>str_fields = dict_set ''post_id'' ''7'' initial_fields,
          other_metadata = MetaDict [(''custom'', ''b'')]\<rparr>"
proof -
  have h: "\<forall>e \<in> set (children wp_item). is_wp_element e \<longrightarrow>
             cleanup_tag_name (tag e) \<noteq> ''other_metadata''"
    by (simp add: wp_item_def cleanup_tag_name_def)
  from extract_wp_children_merged [OF h] obtain c om where
    "extract_article_content wp_item = Inr c" by blast
  moreover have "extract_article_content wp_item =
     Inr \<lparr>str_fields = dict_set ''post_id'' ''7'' initial_fields,
          other_metadata = MetaDict [(''custom'', ''b'')]\<rparr>"
    by (simp add: extract_article_content_def resolved_content_def wp_item_def
      is_wp_element_def Let_def find_text_by_tag_variants_def stripped_text_def
      et_find_child_def et_find_descendant_def descendants_def dc_creator_tag_def
      content_encoded_tag_def set_if_text_def set_field_def initial_content_def
      initial_fields_def cleanup_tag_name_def wp_value_def py_strip_def char_defs in_content_def)
  ultimately show ?thesis by simp
qed
section \<open>Properties of the Document Writer\<close>

lemma creator_article_lines:
  "format_lines creator_article =
     Inr [''---'',
          ''title: T'',
          ''post_id: '' @ [DQUOTE, DQUOTE],
          ''link: '' @ [DQUOTE, DQUOTE],
          ''guid: '' @ [DQUOTE, DQUOTE],
          ''description: '' @ [DQUOTE, DQUOTE],
          ''pubDate: '' @ [DQUOTE, DQUOTE],
          ''post_date: '' @ [DQUOTE, DQUOTE],
          ''post_date_gmt: '' @ [DQUOTE, DQUOTE],
          ''post_modified: '' @ [DQUOTE, DQUOTE],
          ''post_modified_gmt: '' @ [DQUOTE, DQUOTE],
          ''comment_status: '' @ [DQUOTE, DQUOTE],
          ''ping_status: '' @ [DQUOTE, DQUOTE],
          ''post_name: '' @ [DQUOTE, DQUOTE],
          ''status: '' @ [DQUOTE, DQUOTE],
          ''post_parent: '' @ [DQUOTE, DQUOTE],
          ''menu_order: '' @ [DQUOTE, DQUOTE],
          ''post_type: '' @ [DQUOTE, DQUOTE],
          ''post_password: '' @ [DQUOTE, DQUOTE],
          ''is_sticky: '' @ [DQUOTE, DQUOTE],
          ''custom: '' @ [DQUOTE] @ ''a:b'' @ [DQUOTE],
          ''---'',
          [],
          ''(No content)'']"
  by (simp add: format_lines_def header_keys_def get_item_def creator_article_def
      initial_fields_def metadata_line_def safe_value_def char_defs)

lemma append_fields_map:
  assumes "\<forall>k \<in> set ks. map_of (str_fields c) k = Some (val k)"
  shows "append_fields c ks lines = Inr (lines @ map (\<lambda>k. metadata_line k (val k)) ks)"
  using assms by (induction ks arbitrary: lines) (simp_all add: get_item_def)

text \<open>
  The claim C5 counts the creator among the fields of the metadata block. The record
  \<open>creator_article\<close> has the creator \<open>alice\<close>, and no line of its block names the creator.
\<close>

theorem format_lines_creator_counterexample:
  "map_of (str_fields creator_article) ''creator'' = Some ''alice'' \<and>
   format_lines creator_article =
     Inr [''---'',
          ''title: T'',
          ''post_id: '' @ [DQUOTE, DQUOTE],
          ''link: '' @ [DQUOTE, DQUOTE],
          ''guid: '' @ [DQUOTE, DQUOTE],
          ''description: '' @ [DQUOTE, DQUOTE],
          ''pubDate: '' @ [DQUOTE, DQUOTE],
          ''post_date: '' @ [DQUOTE, DQUOTE],
          ''post_date_gmt: '' @ [DQUOTE, DQUOTE],
          ''post_modified: '' @ [DQUOTE, DQUOTE],
          ''post_modified_gmt: '' @ [DQUOTE, DQUOTE],
          ''comment_status: '' @ [DQUOTE, DQUOTE],
          ''ping_status: '' @ [DQUOTE, DQUOTE],
          ''post_name: '' @ [DQUOTE, DQUOTE],
          ''status: '' @ [DQUOTE, DQUOTE],
          ''post_parent: '' @ [DQUOTE, DQUOTE],
          ''menu_order: '' @ [DQUOTE, DQUOTE],
          ''post_type: '' @ [DQUOTE, DQUOTE],
          ''post_password: '' @ [DQUOTE, DQUOTE],
          ''is_sticky: '' @ [DQUOTE, DQUOTE],
          ''custom: '' @ [DQUOTE] @ ''a:b'' @ [DQUOTE],
          ''---'',
          [],
          ''(No content)'']"
  using creator_article_lines
  by (simp add: creator_article_def initial_fields_def)

text \<open>
  C5, as amended. For every record that has the nineteen header fields and the content
  as strings and a mapping as \<open>other_metadata\<close>, the lines of the document are: \<open>---\<close>;
  one line \<open>key: value\<close> for each of title, post_id, link, guid, description, pubDate,
  post_date, post_date_gmt, post_modified, post_modified_gmt, comment_status,
  ping_status, post_name, status, post_parent, menu_order, post_type, post_password and
  is_sticky, in this order (every canonical field but the content, which is the body,
  and the creator, which is not written); one line for each entry of \<open>other_metadata\<close>,
  in insertion order; \<open>---\<close>; an empty line; the body, or \<open>(No content)\<close> when it is empty.
  An empty value is written as two double quotes, a value with a colon, a double quote
  or a newline is wrapped in double quotes, and any other value is written as it is.
\<close>

theorem format_lines_layout:
  assumes "\<forall>k \<in> set header_keys. map_of (str_fields c) k = Some (val k)"
    and "map_of (str_fields c) ''content'' = Some body"
    and "other_metadata c = MetaDict om"
  shows "format_lines c =
           Inr ([''---''] @
                map (\<lambda>k. k @ '': '' @ safe_value (Some (val k)))
                  [''title'', ''post_id'', ''link'', ''guid'', ''description'', ''pubDate'',
                   ''post_date'', ''post_date_gmt'', ''post_modified'', ''post_modified_gmt'',
                   ''comment_status'', ''ping_status'', ''post_name'', ''status'',
                   ''post_parent'', ''menu_order'', ''post_type'', ''post_password'',
                   ''is_sticky''] @
                map (\<lambda>(k, v). k @ '': '' @ safe_value (Some v)) om @
                [''---'', [], if body = [] then ''(No content)'' else body]) \<and>
         (\<forall>v. safe_value (Some v) =
                (if v = [] then [DQUOTE, DQUOTE]
                 else if CHR '':'' \<in> set v \<or> DQUOTE \<in> set v \<or> NL \<in> set v
                      then [DQUOTE] @ v @ [DQUOTE]
                      else v))"
proof
  have "append_fields c header_keys [''---''] =
          Inr ([''---''] @ map (\<lambda>k. metadata_line k (val k)) header_keys)"
    using assms(1) by (rule append_fields_map)
  then show "format_lines c =
           Inr ([''---''] @
                map (\<lambda>k. k @ '': '' @ safe_value (Some (val k)))
                  [''title'', ''post_id'', ''link'', ''guid'', ''description'', ''pubDate'',
                   ''post_date'', ''post_date_gmt'', ''post_modified'', ''post_modified_gmt'',
                   ''comment_status'', ''ping_status'', ''post_name'', ''status'',
                   ''post_parent'', ''menu_order'', ''post_type'', ''post_password'',
                   ''is_sticky''] @
                map (\<lambda>(k, v). k @ '': '' @ safe_value (Some v)) om @
                [''---'', [], if body = [] then ''(No content)'' else body])"
    using assms(2,3)
    by (simp add: format_lines_def get_item_def metadata_line_def header_keys_def
        case_prod_beta del: append.simps map_append)
next
  show "\<forall>v. safe_value (Some v) =
                (if v = [] then [DQUOTE, DQUOTE]
                 else if CHR '':'' \<in> set v \<or> DQUOTE \<in> set v \<or> NL \<in> set v
                      then [DQUOTE] @ v @ [DQUOTE]
                      else v)"
    by (auto simp: safe_value_def)
qed

theorem format_lines_layout_witness:
  "format_lines creator_article =
     Inr [''---'',
          ''title: T'',
          ''post_id: '' @ [DQUOTE, DQUOTE],
          ''link: '' @ [DQUOTE, DQUOTE],
          ''guid: '' @ [DQUOTE, DQUOTE],
          ''description: '' @ [DQUOTE, DQUOTE],
          ''pubDate: '' @ [DQUOTE, DQUOTE],
          ''post_date: '' @ [DQUOTE, DQUOTE],
          ''post_date_gmt: '' @ [DQUOTE, DQUOTE],
          ''post_modified: '' @ [DQUOTE, DQUOTE],
          ''post_modified_gmt: '' @ [DQUOTE, DQUOTE],
          ''comment_status: '' @ [DQUOTE, DQUOTE],
          ''ping_status: '' @ [DQUOTE, DQUOTE],
          ''post_name: '' @ [DQUOTE, DQUOTE],
          ''status: '' @ [DQUOTE, DQUOTE],
          ''post_parent: '' @ [DQUOTE, DQUOTE],
          ''menu_order: '' @ [DQUOTE, DQUOTE],
          ''post_type: '' @ [DQUOTE, DQUOTE],
          ''post_password: '' @ [DQUOTE, DQUOTE],
          ''is_sticky: '' @ [DQUOTE, DQUOTE],
          ''custom: '' @ [DQUOTE] @ ''a:b'' @ [DQUOTE],
          ''---'',
          [],
          ''(No content)'']"
proof -
  let ?val = "\<lambda>k. if k = ''title'' then ''T'' else []"
  have 1: "\<forall>k \<in> set header_keys. map_of (str_fields creator_article) k = Some (?val k)"
    by (simp add: header_keys_def creator_article_def initial_fields_def)
  have 2: "map_of (str_fields creator_article) ''content'' = Some []"
    by (simp add: creator_article_def initial_fields_def)
  have 3: "other_metadata creator_article = MetaDict [(''custom'', ''a:b'')]"
    by (simp add: creator_article_def)
  from format_lines_layout [OF 1 2 3] show ?thesis
    by (simp add: safe_value_def char_defs)
qed

section \<open>Properties of the Markup Converter: headings\<close>

text \<open>
  The claim C10 takes every heading whose content is not a single string, such as a
  heading that holds one inline element. The getter of \<open>.string\<close> looks through a single
  child tag: the heading \<open><h1><em>T</em></h1>\<close> is rendered with its text.
\<close>

theorem heading_nested_inline_counterexample:
  "process_element 1 (Tag ''h1'' [] [NavigableString, CData]
                        [Tag ''em'' [] [NavigableString, CData] [Str NavigableString ''T'']]) =
     Some (Tag ''h1'' [] [NavigableString, CData] [Str NavigableString (''# T'' @ [NL, NL])])"
  by (simp add: process_body_def heading_def py_format_def)

text \<open>
  C10, as amended. For every heading (\<open>h1\<close> to \<open>h6\<close>) whose \<open>.string\<close> is \<open>None\<close>, which is
  the case when it has no child, or more than one, or one child tag whose own \<open>.string\<close>
  is \<open>None\<close>, one call of \<open>_process_element\<close> leaves the heading with a single string:
  the \<open>#\<close> markers of its level, a space, the word \<open>None\<close> and two newlines.
\<close>

theorem heading_without_string_renders_None:
  assumes "(level, n) \<in> set [(1, ''h1''), (2, ''h2''), (3, ''h3''), (4, ''h4''), (5, ''h5''), (6, ''h6'')]"
    and "get_string (Tag n a t cs) = None"
  shows "process_element (Suc depth) (Tag n a t cs) =
           Some (Tag n a t [Str NavigableString (replicate level (CHR ''#'') @ '' None'' @ [NL, NL])])"
  using assms by (auto simp: process_body_def heading_def py_format_def)

theorem heading_without_string_renders_None_witness:
  "process_element 1 (Tag ''h2'' [] [NavigableString, CData]
                        [Str NavigableString ''Hello '',
                         Tag ''b'' [] [NavigableString, CData] [Str NavigableString ''World'']]) =
     Some (Tag ''h2'' [] [NavigableString, CData] [Str NavigableString (''## None'' @ [NL, NL])])"
proof -
  have 1: "(2, ''h2'') \<in> set [(1::nat, ''h1''), (2, ''h2''), (3, ''h3''), (4, ''h4''), (5, ''h5''), (6, ''h6'')]"
    by simp
  have 2: "get_string (Tag ''h2'' [] [NavigableString, CData]
                        [Str NavigableString ''Hello '',
                         Tag ''b'' [] [NavigableString, CData] [Str NavigableString ''World'']]) = None"
    by simp
  from heading_without_string_renders_None [OF 1 2, of 0] show ?thesis
    by (simp add: eval_nat_numeral)
qed

section \<open>Properties of the Markup Converter: termination\<close>







lemma height_set_string: "height (set_string (Tag n a t cs) s) = 1"
  by simp

lemma height_Tag_pos: "1 \<le> height (Tag n a t cs)"
  by simp





section \<open>Properties of the Markup Converter: whitespace\<close>

lemma NL_space: "py_isspace NL"
  by (simp add: py_isspace_def py_whitespace_def NL_def)



lemma nl_bounded_mono: "nl_bounded n s \<Longrightarrow> m \<le> n \<Longrightarrow> nl_bounded m s"
proof (induction s arbitrary: n m)
  case Nil
  then show ?case by simp
next
  case (Cons c cs)
  then show ?case by (auto split: if_splits)
qed

lemma nl_bounded_tail: "nl_bounded n (c # cs) \<Longrightarrow> nl_bounded 0 cs"
  by (auto split: if_splits intro: nl_bounded_mono)







lemma count_takeWhile_Cons_NL:
  "count_list (takeWhile py_isspace (NL # cs)) NL = Suc (count_list (takeWhile py_isspace cs) NL)"
  by (simp add: NL_space)















text \<open>The conversion of the round-trip scenario, for any bound of two or more.\<close>

lemma hello_process: "process_element (Suc (Suc depth)) hello_soup = Some (Tag ''[document]'' [] [NavigableString, CData]
     [Tag ''h1'' [] [NavigableString, CData] [Str NavigableString (''# Title'' @ [NL, NL])],
      Tag ''p'' [] [NavigableString, CData] [Str NavigableString (''Body text'' @ [NL, NL])]])"
  by (simp add: hello_soup_def process_body_def heading_def py_format_def)

lemma hello_markdown:
  "html_to_markdown hello_soup (Suc (Suc depth)) ''<h1>Title</h1><p>Body text</p>'' =
     Some (''# Title'' @ [NL, NL] @ ''Body text'')"
  by (simp add: html_to_markdown_def hello_process py_strip_def after_last_newline_def char_defs
      del: process_element.simps)

lemma hello_sanitize:
  assumes "unquote ''Hello: World'' = Some ''Hello: World''" and "nfkc ''Hello: World'' = ''Hello: World''"
  shows "sanitize_filename unquote nfkc ''Hello: World'' = ''Hello__World''"
  using assms
  by (simp add: sanitize_filename_def sub_forbidden_def forbidden_chars_def char_defs)




section \<open>The round-trip scenario\<close>

text \<open>
  C6. With a percent decoding and a normalisation that leave the title \<open>Hello: World\<close>
  as it is, the record with this title, \<open>post_id\<close> 1 and the content
  \<open><h1>Title</h1><p>Body text</p>\<close> is written to the file \<open>Hello__World.md\<close>, and the text
  of the file is \<open>hello_file\<close>: its second line is \<open>title: "Hello: World"\<close>, and after the
  metadata block and an empty line come \<open># Title\<close>, an empty line and \<open>Body text\<close>.
\<close>

theorem export_hello_world:
  assumes "unquote ''Hello: World'' = Some ''Hello: World''" and "nfkc ''Hello: World'' = ''Hello: World''"
  shows "export_article unquote nfkc hello_soup 2 hello_article 0 =
           Some (Inr (''Hello__World.md'', hello_file))"
proof -
  have t: "get_item hello_article ''title'' = Inr ''Hello: World''"
    by (simp add: get_item_def hello_article_def initial_fields_def)
  have c: "get_item hello_article ''content'' = Inr ''<h1>Title</h1><p>Body text</p>''"
    by (simp add: get_item_def hello_article_def initial_fields_def)
  have f: "format_as_markdown (set_field ''content'' (''# Title'' @ [NL, NL] @ ''Body text'') hello_article)
             = Inr hello_file"
    by (simp add: format_as_markdown_def format_lines_def header_keys_def get_item_def
        set_field_def hello_article_def initial_fields_def metadata_line_def safe_value_def
        hello_file_def char_defs)
  have s: "sanitize_filename unquote nfkc ''Hello: World'' = ''Hello__World''"
    using assms by (rule hello_sanitize)
  have m: "html_to_markdown hello_soup 2 ''<h1>Title</h1><p>Body text</p>'' =
             Some (''# Title'' @ [NL, NL] @ ''Body text'')"
    using hello_markdown [of 0] by (simp add: eval_nat_numeral)
  show ?thesis
    using f by (simp add: export_article_def t c s m)
qed

theorem export_hello_world_witness:
  "export_article Some id hello_soup 2 hello_article 0 = Some (Inr (''Hello__World.md'', hello_file))"
  by (rule export_hello_world) simp_all

end
